theory Spec2Isabelle
  imports Main "HOL-Library.Word"
begin

unbundle bit_operations_syntax

section \<open>Errors, machine integers and vector access\<close>

text \<open>
  The exception classes of \<^verbatim>\<open>utils/exceptions.h\<close> that the core throws, with the
  arguments the throw sites pass. \<open>UndefinedBehaviour\<close> stands for what C++ leaves
  undefined: an index outside a \<^verbatim>\<open>std::vector\<close>, a remainder by zero, a read through
  a pointer to a destroyed object. \<open>Deadlock\<close> stands for a thread that locks a
  \<^verbatim>\<open>std::mutex\<close> it already owns: the mutexes of the source are not recursive, and the
  call does not return.

  The embedding follows one thread. A \<^verbatim>\<open>std::lock_guard\<close> appears in it only where
  that thread takes a mutex it holds already. The log statements (\<^verbatim>\<open>LOG_DEBUG\<close> and
  the like) write nothing the model keeps; what evaluating their arguments does is
  modelled where it is undefined.
  A \<^verbatim>\<open>uint32_t\<close> is a natural number below \<open>2 ^ 32\<close>; where an addition of the
  source can wrap, the model applies \<open>u32\<close>.
\<close>

datatype error =
    FileSystemException string
  | TransactionNotFoundException "64 word"
  | TransactionAbortedException "64 word"
  | InsufficientSpaceException nat nat
  | BlockNotFoundException nat
  | InodeNotFoundException nat
  | UndefinedBehaviour
  | Deadlock

definition UINT32_MAX :: nat where
  "UINT32_MAX = 4294967295"

definition u32 :: "nat \<Rightarrow> nat" where
  "u32 n = n mod 4294967296"

text \<open>\<^verbatim>\<open>v[i]\<close> read and \<^verbatim>\<open>v[i] = b\<close> on a \<^verbatim>\<open>std::vector\<close>.\<close>

definition vget :: "'a list \<Rightarrow> nat \<Rightarrow> error + 'a" where
  "vget v i = (if i < length v then Inr (v ! i) else Inl UndefinedBehaviour)"

definition vset :: "'a list \<Rightarrow> nat \<Rightarrow> 'a \<Rightarrow> error + 'a list" where
  "vset v i b = (if i < length v then Inr (v[i := b]) else Inl UndefinedBehaviour)"

text \<open>
  The scan both allocators use: \<^verbatim>\<open>for (uint32_t i = lo; i < hi; ++i) if (v[i]) return i;\<close>
  \<open>Inr None\<close> when the loop ends without a hit.
\<close>

function scan_free :: "bool list \<Rightarrow> nat \<Rightarrow> nat \<Rightarrow> error + nat option" where
  "scan_free v i hi =
     (if i < hi then
        (case vget v i of
           Inl e \<Rightarrow> Inl e
         | Inr b \<Rightarrow> if b then Inr (Some i) else scan_free v (i + 1) hi)
      else Inr None)"
  by pat_completeness auto
termination
  by (relation "measure (\<lambda>(v, i, hi). hi - i)") auto

declare scan_free.simps [simp del]

section \<open>BlockManager (src/core/block\_manager.cpp)\<close>

record BlockManager =
  block_bitmap :: "bool list"
  total_blocks :: nat
  block_size :: nat
  next_free_block :: nat

text \<open>The constructor: every block free, block 0 reserved for the superblock.\<close>

definition BlockManager_new :: "nat \<Rightarrow> nat \<Rightarrow> BlockManager" where
  "BlockManager_new n_blocks bsize =
     (if n_blocks > 0 then
        \<lparr>block_bitmap = (replicate n_blocks True)[0 := False], total_blocks = n_blocks,
         block_size = bsize, next_free_block = 1\<rparr>
      else
        \<lparr>block_bitmap = replicate n_blocks True, total_blocks = n_blocks,
         block_size = bsize, next_free_block = 0\<rparr>)"

text \<open>
  \<^verbatim>\<open>get_free_block_count\<close> takes \<^verbatim>\<open>bitmap_mutex_\<close> before it counts. \<open>held\<close> says
  whether the calling thread owns that mutex already.
\<close>

definition get_free_block_count :: "bool \<Rightarrow> BlockManager \<Rightarrow> error + nat" where
  "get_free_block_count held bm =
     (if held then Inl Deadlock
      else Inr (foldl (\<lambda>count is_free. if is_free then u32 (count + 1) else count) 0
                  (block_bitmap bm)))"

definition find_next_free_block :: "BlockManager \<Rightarrow> nat \<Rightarrow> error + nat" where
  "find_next_free_block bm start_index =
     (case scan_free (block_bitmap bm) start_index (total_blocks bm) of
        Inl e \<Rightarrow> Inl e
      | Inr (Some i) \<Rightarrow> Inr i
      | Inr None \<Rightarrow>
          (case scan_free (block_bitmap bm) 0 start_index of
             Inl e \<Rightarrow> Inl e
           | Inr (Some i) \<Rightarrow> Inr i
           | Inr None \<Rightarrow> Inr UINT32_MAX))"

text \<open>
  The allocation order in the words of the specification: scan from the hint to
  \<open>total_blocks\<close>, wrap, scan from 0 up to the hint, and take the first free block met.
  This is the reference that \<open>allocate_block\<close> is compared with, not part of the code.
\<close>

definition first_free_from :: "bool list \<Rightarrow> nat \<Rightarrow> nat \<Rightarrow> nat option" where
  "first_free_from v hint n = List.find (\<lambda>i. v ! i) ([hint..<n] @ [0..<hint])"

text \<open>
  \<^verbatim>\<open>allocate_block\<close> holds \<^verbatim>\<open>bitmap_mutex_\<close> from its first line on; the argument of
  its \<^verbatim>\<open>throw\<close> calls \<^verbatim>\<open>get_free_block_count\<close> under that lock.
\<close>

definition allocate_block :: "BlockManager \<Rightarrow> (error + nat) \<times> BlockManager" where
  "allocate_block bm =
     (case find_next_free_block bm (next_free_block bm) of
        Inl e \<Rightarrow> (Inl e, bm)
      | Inr block_id \<Rightarrow>
          if block_id = UINT32_MAX then
            (case get_free_block_count True bm of
               Inl e \<Rightarrow> (Inl e, bm)
             | Inr available \<Rightarrow> (Inl (InsufficientSpaceException 1 available), bm))
          else
            (case vset (block_bitmap bm) block_id False of
               Inl e \<Rightarrow> (Inl e, bm)
             | Inr v \<Rightarrow>
                 if total_blocks bm = 0 then (Inl UndefinedBehaviour, bm\<lparr>block_bitmap := v\<rparr>)
                 else (Inr block_id,
                       bm\<lparr>block_bitmap := v,
                          next_free_block := u32 (block_id + 1) mod total_blocks bm\<rparr>)))"

definition deallocate_block :: "BlockManager \<Rightarrow> nat \<Rightarrow> (error + unit) \<times> BlockManager" where
  "deallocate_block bm block_id =
     (if block_id \<ge> total_blocks bm then (Inl (BlockNotFoundException block_id), bm)
      else
        (case vget (block_bitmap bm) block_id of
           Inl e \<Rightarrow> (Inl e, bm)
         | Inr is_free \<Rightarrow>
             if is_free then (Inr (), bm)
             else
               (case vset (block_bitmap bm) block_id True of
                  Inl e \<Rightarrow> (Inl e, bm)
                | Inr v \<Rightarrow> (Inr (), bm\<lparr>block_bitmap := v\<rparr>))))"

definition is_block_free :: "BlockManager \<Rightarrow> nat \<Rightarrow> error + bool" where
  "is_block_free bm block_id =
     (if block_id \<ge> total_blocks bm then Inr False
      else vget (block_bitmap bm) block_id)"

text \<open>
  \<^verbatim>\<open>allocate_blocks\<close>, first part: one pass of \<^verbatim>\<open>total_blocks_\<close> steps looking for
  \<open>count\<close> consecutive free blocks. \<open>Inr (Some start_block)\<close> when the run is found.
\<close>

function contiguous_scan ::
  "BlockManager \<Rightarrow> nat \<Rightarrow> nat \<Rightarrow> nat \<Rightarrow> nat \<Rightarrow> nat \<Rightarrow> error + nat option" where
  "contiguous_scan bm count i start_block consecutive_count current_block =
     (if i < total_blocks bm then
        (case vget (block_bitmap bm) current_block of
           Inl e \<Rightarrow> Inl e
         | Inr is_free \<Rightarrow>
             if is_free then
               (if u32 (consecutive_count + 1) = count then Inr (Some start_block)
                else contiguous_scan bm count (i + 1) start_block (u32 (consecutive_count + 1))
                       (u32 (current_block + 1) mod total_blocks bm))
             else contiguous_scan bm count (i + 1)
                    (u32 (current_block + 1) mod total_blocks bm) 0
                    (u32 (current_block + 1) mod total_blocks bm))
      else Inr None)"
  by pat_completeness auto
termination
  by (relation "measure (\<lambda>(bm, count, i, s, c, cur). total_blocks bm - i)") auto

declare contiguous_scan.simps [simp del]

text \<open>The inner loop over \<open>j\<close> that marks the run found and collects its ids.\<close>

fun mark_run ::
  "nat \<Rightarrow> nat \<Rightarrow> nat list \<Rightarrow> bool list \<Rightarrow> nat list \<Rightarrow> error + (bool list \<times> nat list)" where
  "mark_run n_blocks start_block [] v allocated_blocks = Inr (v, allocated_blocks)"
| "mark_run n_blocks start_block (j # js) v allocated_blocks =
     (case vset v (u32 (start_block + j) mod n_blocks) False of
        Inl e \<Rightarrow> Inl e
      | Inr v' \<Rightarrow>
          mark_run n_blocks start_block js v'
            (allocated_blocks @ [u32 (start_block + j) mod n_blocks]))"

text \<open>The roll-back loop: \<^verbatim>\<open>block_bitmap_[allocated_block] = true\<close> for each id collected.\<close>

fun release_all :: "bool list \<Rightarrow> nat list \<Rightarrow> error + bool list" where
  "release_all v [] = Inr v"
| "release_all v (a # as) =
     (case vset v a True of Inl e \<Rightarrow> Inl e | Inr v' \<Rightarrow> release_all v' as)"

text \<open>
  \<^verbatim>\<open>allocate_blocks\<close>, second part: \<open>count\<close> single allocations; the first argument is
  the number of iterations still to run. The function holds \<^verbatim>\<open>bitmap_mutex_\<close>, and the
  argument of the \<^verbatim>\<open>throw\<close> after the roll-back calls \<^verbatim>\<open>get_free_block_count\<close>.
\<close>

fun scattered ::
  "nat \<Rightarrow> nat \<Rightarrow> BlockManager \<Rightarrow> nat list \<Rightarrow> (error + nat list) \<times> BlockManager" where
  "scattered 0 count bm allocated_blocks = (Inr allocated_blocks, bm)"
| "scattered (Suc k) count bm allocated_blocks =
     (case find_next_free_block bm (next_free_block bm) of
        Inl e \<Rightarrow> (Inl e, bm)
      | Inr block_id \<Rightarrow>
          if block_id = UINT32_MAX then
            (case release_all (block_bitmap bm) allocated_blocks of
               Inl e \<Rightarrow> (Inl e, bm)
             | Inr v \<Rightarrow>
                 (case get_free_block_count True (bm\<lparr>block_bitmap := v\<rparr>) of
                    Inl e \<Rightarrow> (Inl e, bm\<lparr>block_bitmap := v\<rparr>)
                  | Inr available \<Rightarrow>
                      (Inl (InsufficientSpaceException count available),
                       bm\<lparr>block_bitmap := v\<rparr>)))
          else
            (case vset (block_bitmap bm) block_id False of
               Inl e \<Rightarrow> (Inl e, bm)
             | Inr v \<Rightarrow>
                 if total_blocks bm = 0 then (Inl UndefinedBehaviour, bm\<lparr>block_bitmap := v\<rparr>)
                 else
                   scattered k count
                     (bm\<lparr>block_bitmap := v,
                        next_free_block := u32 (block_id + 1) mod total_blocks bm\<rparr>)
                     (allocated_blocks @ [block_id])))"

definition allocate_blocks :: "BlockManager \<Rightarrow> nat \<Rightarrow> (error + nat list) \<times> BlockManager" where
  "allocate_blocks bm count =
     (if count = 0 then (Inr [], bm)
      else
        (case contiguous_scan bm count 0 (next_free_block bm) 0 (next_free_block bm) of
           Inl e \<Rightarrow> (Inl e, bm)
         | Inr (Some start_block) \<Rightarrow>
             (case mark_run (total_blocks bm) start_block [0..<count] (block_bitmap bm) [] of
                Inl e \<Rightarrow> (Inl e, bm)
              | Inr (v, allocated_blocks) \<Rightarrow>
                  (Inr allocated_blocks,
                   bm\<lparr>block_bitmap := v,
                      next_free_block := u32 (start_block + count) mod total_blocks bm\<rparr>))
         | Inr None \<Rightarrow> scattered count count bm []))"

text \<open>\<^verbatim>\<open>BlockManager::is_valid\<close>: the bitmap has the right size and block 0 is not free.\<close>

definition BlockManager_is_valid :: "BlockManager \<Rightarrow> error + bool" where
  "BlockManager_is_valid bm =
     (if length (block_bitmap bm) \<noteq> total_blocks bm then Inr False
      else if total_blocks bm > 0 then
        (case vget (block_bitmap bm) 0 of
           Inl e \<Rightarrow> Inl e
         | Inr b0 \<Rightarrow> if b0 then Inr False else Inr True)
      else Inr True)"

section \<open>InodeTable (src/core/inode.cpp)\<close>

record Inode =
  mode :: nat
  uid :: nat
  gid :: nat
  file_size :: nat
  blocks :: nat
  atime :: nat
  mtime :: nat
  ctime :: nat
  direct_blocks :: "nat list"
  indirect_block :: nat
  double_indirect :: nat
  triple_indirect :: nat
  replication_count :: nat
  inode_checksum :: nat
  link_count :: nat

text \<open>The default constructor \<^verbatim>\<open>Inode::Inode()\<close>.\<close>

definition Inode_new :: Inode where
  "Inode_new =
     \<lparr>mode = 0, uid = 0, gid = 0, file_size = 0, blocks = 0, atime = 0, mtime = 0, ctime = 0,
      direct_blocks = replicate 12 0, indirect_block = 0, double_indirect = 0,
      triple_indirect = 0, replication_count = 1, inode_checksum = 0, link_count = 0\<rparr>"

record InodeTable =
  inodes :: "Inode list"
  free_inodes :: "bool list"
  next_free_inode :: nat

definition InodeTable_new :: "nat \<Rightarrow> InodeTable" where
  "InodeTable_new max_inodes =
     (let f0 = replicate max_inodes True;
          f1 = (if max_inodes > 0 then f0[0 := False] else f0);
          f2 = (if max_inodes > 1 then f1[1 := False] else f1)
      in \<lparr>inodes = replicate max_inodes Inode_new, free_inodes = f2, next_free_inode = 1\<rparr>)"

text \<open>
  \<^verbatim>\<open>get_free_inode_count\<close> takes \<^verbatim>\<open>table_mutex_\<close>; \<open>held\<close> says whether the calling
  thread owns it already, as \<^verbatim>\<open>allocate_inode\<close> does at its \<^verbatim>\<open>throw\<close>.
\<close>

definition get_free_inode_count :: "bool \<Rightarrow> InodeTable \<Rightarrow> error + nat" where
  "get_free_inode_count held t =
     (if held then Inl Deadlock
      else Inr (foldl (\<lambda>count is_free. if is_free then u32 (count + 1) else count) 0
                  (free_inodes t)))"

text \<open>
  What both loops of \<^verbatim>\<open>allocate_inode\<close> do on a hit at index \<open>i\<close>: clear the bit,
  move the hint to \<^verbatim>\<open>(i + 1) % free_inodes_.size()\<close>, return \<open>i\<close>.
\<close>

definition take_inode :: "InodeTable \<Rightarrow> nat \<Rightarrow> (error + nat) \<times> InodeTable" where
  "take_inode t i =
     (case vset (free_inodes t) i False of
        Inl e \<Rightarrow> (Inl e, t)
      | Inr v \<Rightarrow>
          (Inr i, t\<lparr>free_inodes := v, next_free_inode := u32 (i + 1) mod length v\<rparr>))"

definition allocate_inode :: "InodeTable \<Rightarrow> (error + nat) \<times> InodeTable" where
  "allocate_inode t =
     (case scan_free (free_inodes t) (next_free_inode t) (length (free_inodes t)) of
        Inl e \<Rightarrow> (Inl e, t)
      | Inr (Some i) \<Rightarrow> take_inode t i
      | Inr None \<Rightarrow>
          (case scan_free (free_inodes t) 1 (next_free_inode t) of
             Inl e \<Rightarrow> (Inl e, t)
           | Inr (Some i) \<Rightarrow> take_inode t i
           | Inr None \<Rightarrow>
               (case get_free_inode_count True t of
                  Inl e \<Rightarrow> (Inl e, t)
                | Inr available \<Rightarrow> (Inl (InsufficientSpaceException 1 available), t))))"

definition deallocate_inode :: "InodeTable \<Rightarrow> nat \<Rightarrow> (error + unit) \<times> InodeTable" where
  "deallocate_inode t inode_num =
     (if inode_num \<ge> length (free_inodes t) then (Inl (InodeNotFoundException inode_num), t)
      else
        (case vget (free_inodes t) inode_num of
           Inl e \<Rightarrow> (Inl e, t)
         | Inr is_free \<Rightarrow>
             if is_free then (Inr (), t)
             else
               (case vset (free_inodes t) inode_num True of
                  Inl e \<Rightarrow> (Inl e, t)
                | Inr v \<Rightarrow>
                    (case vset (inodes t) inode_num Inode_new of
                       Inl e \<Rightarrow> (Inl e, t\<lparr>free_inodes := v\<rparr>)
                     | Inr ins \<Rightarrow> (Inr (), t\<lparr>inodes := ins, free_inodes := v\<rparr>)))))"

definition is_inode_free :: "InodeTable \<Rightarrow> nat \<Rightarrow> error + bool" where
  "is_inode_free t inode_num =
     (if inode_num \<ge> length (free_inodes t) then Inr False
      else vget (free_inodes t) inode_num)"

section \<open>WAL records (src/core/transaction\_manager.cpp)\<close>

text \<open>
  \<^verbatim>\<open>struct LogEntry\<close>. The source declares no constants for \<open>operation_type\<close>: it is
  an uninterpreted \<^verbatim>\<open>uint32_t\<close> that no function of the manager reads.
\<close>

record LogEntry =
  transaction_id :: "64 word"
  operation_type :: "32 word"
  inode_number :: "32 word"
  block_number :: "32 word"
  old_data :: "8 word list"
  new_data :: "8 word list"
  timestamp :: "64 word"
  checksum :: "32 word"

definition LogEntry_new :: LogEntry where
  "LogEntry_new =
     \<lparr>transaction_id = 0, operation_type = 0, inode_number = 0, block_number = 0,
      old_data = [], new_data = [], timestamp = 0, checksum = 0\<rparr>"

text \<open>One round of the payload loops of \<^verbatim>\<open>update_checksum\<close>.\<close>

definition checksum_step :: "32 word \<Rightarrow> 8 word \<Rightarrow> 32 word" where
  "checksum_step temp_checksum byte =
     (let t = push_bit 1 temp_checksum XOR ucast byte
      in if t AND 0x80000000 \<noteq> 0 then t XOR 0x04C11DB7 else t)"

definition update_checksum :: "LogEntry \<Rightarrow> LogEntry" where
  "update_checksum e =
     (let t0 = ucast (transaction_id e) XOR ucast (drop_bit 32 (transaction_id e))
               XOR operation_type e XOR inode_number e XOR block_number e
               XOR ucast (timestamp e) XOR ucast (drop_bit 32 (timestamp e));
          t1 = foldl checksum_step t0 (old_data e);
          t2 = foldl checksum_step t1 (new_data e)
      in e\<lparr>checksum := t2\<rparr>)"

definition LogEntry_is_valid :: "LogEntry \<Rightarrow> bool" where
  "LogEntry_is_valid e = (checksum e = checksum (update_checksum (e\<lparr>checksum := 0\<rparr>)))"

text \<open>
  The bytes \<^verbatim>\<open>file.write(reinterpret_cast<const char*>(&x), sizeof(x))\<close> produces for an
  integer of \<open>k\<close> bytes on a little-endian machine, and the value read back from them.
\<close>

definition le_bytes :: "nat \<Rightarrow> nat \<Rightarrow> 8 word list" where
  "le_bytes k n = map (\<lambda>i. of_nat (n div 256 ^ i)) [0..<k]"

definition le_nat :: "8 word list \<Rightarrow> nat" where
  "le_nat bs = foldr (\<lambda>b n. unat b + 256 * n) bs 0"

text \<open>What \<^verbatim>\<open>LogEntry::serialize\<close> writes.\<close>

definition entry_bytes :: "LogEntry \<Rightarrow> 8 word list" where
  "entry_bytes e =
     (let old_data_size = u32 (length (old_data e));
          new_data_size = u32 (length (new_data e))
      in le_bytes 8 (unat (transaction_id e)) @ le_bytes 4 (unat (operation_type e)) @
         le_bytes 4 (unat (inode_number e)) @ le_bytes 4 (unat (block_number e)) @
         le_bytes 8 (unat (timestamp e)) @ le_bytes 4 (unat (checksum e)) @
         le_bytes 4 old_data_size @ take old_data_size (old_data e) @
         le_bytes 4 new_data_size @ take new_data_size (new_data e))"

subsection \<open>The output stream of the log\<close>

text \<open>
  \<^verbatim>\<open>std::ofstream log_file_\<close> and the device behind it. Bytes written stay in
  \<open>buffered\<close> (the stream buffer is taken to hold a record) until \<open>flush\<close> hands them to
  the device; \<open>flushed\<close> is what the file holds and \<open>room\<close> the number of bytes the
  device still accepts. A flush of more than that stores nothing and sets the bad bit.
  \<open>failbit\<close> is what \<^verbatim>\<open>fail()\<close> returns, true when the fail or the bad bit is set; a
  stream in that state ignores writes and flushes.
\<close>

record ofstream =
  is_open :: bool
  failbit :: bool
  buffered :: "8 word list"
  flushed :: "8 word list"
  room :: nat

definition swrite :: "ofstream \<Rightarrow> 8 word list \<Rightarrow> ofstream" where
  "swrite f bs = (if failbit f then f else f\<lparr>buffered := buffered f @ bs\<rparr>)"

definition flush :: "ofstream \<Rightarrow> ofstream" where
  "flush f =
     (if failbit f then f
      else if length (buffered f) \<le> room f then
        f\<lparr>buffered := [], flushed := flushed f @ buffered f,
          room := room f - length (buffered f)\<rparr>
      else f\<lparr>failbit := True\<rparr>)"

definition serialize :: "LogEntry \<Rightarrow> ofstream \<Rightarrow> (error + unit) \<times> ofstream" where
  "serialize e f =
     (if \<not> is_open f then
        (Inl (FileSystemException ''Cannot serialize LogEntry: file not open''), f)
      else
        (let f' = swrite f (entry_bytes e)
         in if failbit f' then (Inl (FileSystemException ''Failed to serialize LogEntry''), f')
            else (Inr (), f')))"

subsection \<open>The input stream of recovery\<close>

text \<open>
  \<^verbatim>\<open>std::ifstream\<close>. \<open>gcount\<close> is the number of characters extracted by the last
  \<^verbatim>\<open>read\<close>: every \<^verbatim>\<open>read\<close> sets it anew. A \<^verbatim>\<open>read\<close> on a stream that is not good
  sets the fail bit and extracts nothing; a \<^verbatim>\<open>read\<close> that meets the end of the file
  extracts what is left and sets the eof and fail bits.
\<close>

record ifstream =
  in_open :: bool
  unread :: "8 word list"
  in_failbit :: bool
  in_eofbit :: bool
  gcount :: nat

definition good :: "ifstream \<Rightarrow> bool" where
  "good f = (\<not> in_failbit f \<and> \<not> in_eofbit f)"

text \<open>Opening the file; \<open>None\<close> when it cannot be opened.\<close>

definition ifstream_open :: "8 word list option \<Rightarrow> ifstream" where
  "ifstream_open contents =
     (case contents of
        None \<Rightarrow> \<lparr>in_open = False, unread = [], in_failbit = True, in_eofbit = False, gcount = 0\<rparr>
      | Some bs \<Rightarrow>
          \<lparr>in_open = True, unread = bs, in_failbit = False, in_eofbit = False, gcount = 0\<rparr>)"

definition sread :: "ifstream \<Rightarrow> nat \<Rightarrow> 8 word list \<times> ifstream" where
  "sread f n =
     (if \<not> good f then ([], f\<lparr>in_failbit := True, gcount := 0\<rparr>)
      else if n \<le> length (unread f) then
        (take n (unread f), f\<lparr>unread := drop n (unread f), gcount := n\<rparr>)
      else
        (unread f,
         f\<lparr>unread := [], in_failbit := True, in_eofbit := True, gcount := length (unread f)\<rparr>))"

text \<open>
  \<^verbatim>\<open>LogEntry::deserialize\<close>. The six header fields are read by six calls of
  \<^verbatim>\<open>read\<close>, and the test after them compares \<^verbatim>\<open>gcount()\<close> with the sum of the six
  sizes.
\<close>

definition deserialize :: "ifstream \<Rightarrow> (error + LogEntry) \<times> ifstream" where
  "deserialize f0 =
     (if \<not> in_open f0 then
        (Inl (FileSystemException ''Cannot deserialize LogEntry: file not open''), f0)
      else
        (let (b_tx, f1) = sread f0 8;
             (b_op, f2) = sread f1 4;
             (b_inode, f3) = sread f2 4;
             (b_block, f4) = sread f3 4;
             (b_time, f5) = sread f4 8;
             (b_sum, f6) = sread f5 4
         in if in_failbit f6 \<or> gcount f6 \<noteq> 8 + 4 + 4 + 4 + 8 + 4 then
              (Inl (FileSystemException ''Failed to deserialize LogEntry header''), f6)
            else
              (let (b_old, f7) = sread f6 4
               in if in_failbit f7 \<or> gcount f7 \<noteq> 4 then
                    (Inl (FileSystemException ''Failed to deserialize LogEntry old_data_size''),
                     f7)
                  else
                    (let old_data_size = le_nat b_old;
                         (old, f8) =
                           (if old_data_size > 0 then sread f7 old_data_size else ([], f7))
                     in if old_data_size > 0 \<and> (in_failbit f8 \<or> gcount f8 \<noteq> old_data_size)
                        then
                          (Inl (FileSystemException ''Failed to deserialize LogEntry old_data''),
                           f8)
                        else
                          (let (b_new, f9) = sread f8 4
                           in if in_failbit f9 \<or> gcount f9 \<noteq> 4 then
                                (Inl (FileSystemException
                                        ''Failed to deserialize LogEntry new_data_size''), f9)
                              else
                                (let new_data_size = le_nat b_new;
                                     (new, f10) =
                                       (if new_data_size > 0 then sread f9 new_data_size
                                        else ([], f9))
                                 in if new_data_size > 0 \<and>
                                       (in_failbit f10 \<or> gcount f10 \<noteq> new_data_size)
                                    then
                                      (Inl (FileSystemException
                                              ''Failed to deserialize LogEntry new_data''), f10)
                                    else
                                      (Inr \<lparr>transaction_id = of_nat (le_nat b_tx),
                                            operation_type = of_nat (le_nat b_op),
                                            inode_number = of_nat (le_nat b_inode),
                                            block_number = of_nat (le_nat b_block),
                                            old_data = old, new_data = new,
                                            timestamp = of_nat (le_nat b_time),
                                            checksum = of_nat (le_nat b_sum)\<rparr>,
                                       f10)))))))"

section \<open>TransactionManager (src/core/transaction\_manager.cpp)\<close>

text \<open>
  \<^verbatim>\<open>struct Transaction\<close>; its field \<^verbatim>\<open>transaction_id\<close> is \<open>tx_id\<close> here, the name
  \<open>transaction_id\<close> being the log entry's.
\<close>

record Transaction =
  tx_id :: "64 word"
  log_entries :: "LogEntry list"
  start_time :: nat
  is_active :: bool
  is_committed :: bool
  is_aborted :: bool

definition Transaction_new :: "64 word \<Rightarrow> nat \<Rightarrow> Transaction" where
  "Transaction_new i now =
     \<lparr>tx_id = i, log_entries = [], start_time = now, is_active = True,
      is_committed = False, is_aborted = False\<rparr>"

record TransactionManager =
  active_transactions :: "64 word \<rightharpoonup> Transaction"
  next_transaction_id :: "64 word"
  log_file_path :: string
  log_file :: ofstream
  transaction_timeout :: nat

text \<open>
  The constructor opens the log for appending; \<open>existing\<close> is what the file already
  holds (\<open>None\<close>: it cannot be opened, and the constructor throws) and \<open>device_room\<close>
  the number of bytes the device accepts.
\<close>

definition TransactionManager_new ::
  "string \<Rightarrow> 8 word list option \<Rightarrow> nat \<Rightarrow> error + TransactionManager" where
  "TransactionManager_new path existing device_room =
     (case existing of
        None \<Rightarrow> Inl (FileSystemException ''Failed to open transaction log file'')
      | Some bs \<Rightarrow>
          Inr \<lparr>active_transactions = Map.empty, next_transaction_id = 1,
               log_file_path = path,
               log_file = \<lparr>is_open = True, failbit = False, buffered = [], flushed = bs,
                           room = device_room\<rparr>,
               transaction_timeout = 30\<rparr>)"

definition begin_transaction :: "nat \<Rightarrow> TransactionManager \<Rightarrow> 64 word \<times> TransactionManager" where
  "begin_transaction now tm =
     (let i = next_transaction_id tm
      in (i, tm\<lparr>next_transaction_id := i + 1,
                 active_transactions := (active_transactions tm)(i \<mapsto> Transaction_new i now)\<rparr>))"

definition write_log_entry :: "LogEntry \<Rightarrow> ofstream \<Rightarrow> (error + unit) \<times> ofstream" where
  "write_log_entry entry f =
     (if \<not> is_open f then (Inl (FileSystemException ''Transaction log file is not open''), f)
      else
        (case serialize entry f of
           (Inl e, f') \<Rightarrow> (Inl e, f')
         | (Inr u, f') \<Rightarrow> (Inr (), flush f')))"

text \<open>The loop of \<^verbatim>\<open>commit_transaction\<close> over the staged entries; an exception ends it.\<close>

fun write_entries :: "LogEntry list \<Rightarrow> ofstream \<Rightarrow> (error + unit) \<times> ofstream" where
  "write_entries [] f = (Inr (), f)"
| "write_entries (entry # rest) f =
     (case write_log_entry entry f of
        (Inl e, f') \<Rightarrow> (Inl e, f')
      | (Inr u, f') \<Rightarrow> write_entries rest f')"

text \<open>
  \<^verbatim>\<open>commit_transaction\<close>. \<^verbatim>\<open>write_log_entry\<close> does not look at the stream after its
  \<^verbatim>\<open>flush\<close>, so a flush the device refuses goes unnoticed until the next record is
  written. On success the transaction object is marked and then erased from the map,
  which destroys it; the argument of the log statement that follows reads
  \<^verbatim>\<open>transaction->log_entries\<close> through the pointer to the destroyed object, and from
  there on the behaviour is undefined (the \<^verbatim>\<open>return true\<close> comes after it). The
  \<^verbatim>\<open>catch\<close> branch marks the transaction aborted and leaves it in the map.
\<close>

definition commit_transaction ::
  "64 word \<Rightarrow> TransactionManager \<Rightarrow> (error + bool) \<times> TransactionManager" where
  "commit_transaction i tm =
     (case active_transactions tm i of
        None \<Rightarrow> (Inl (TransactionNotFoundException i), tm)
      | Some transaction \<Rightarrow>
          if is_aborted transaction then (Inr False, tm)
          else if is_committed transaction then (Inr True, tm)
          else
            (case write_entries (log_entries transaction) (log_file tm) of
               (Inr u, f') \<Rightarrow>
                 (let marked = transaction\<lparr>is_committed := True, is_active := False\<rparr>;
                      tm1 = tm\<lparr>log_file := f',
                               active_transactions := (active_transactions tm)(i \<mapsto> marked)\<rparr>
                  in (Inl UndefinedBehaviour,
                      tm1\<lparr>active_transactions := (active_transactions tm1)(i := None)\<rparr>))
             | (Inl e, f') \<Rightarrow>
                 (Inr False,
                  tm\<lparr>log_file := f',
                     active_transactions :=
                       (active_transactions tm)
                         (i \<mapsto> transaction\<lparr>is_aborted := True, is_active := False\<rparr>)\<rparr>)))"

text \<open>
  \<^verbatim>\<open>rollback_transaction\<close>: the same erase followed by the same read of
  \<^verbatim>\<open>transaction->log_entries\<close> in the log statement before \<^verbatim>\<open>return true\<close>.
\<close>

definition rollback_transaction ::
  "64 word \<Rightarrow> TransactionManager \<Rightarrow> (error + bool) \<times> TransactionManager" where
  "rollback_transaction i tm =
     (case active_transactions tm i of
        None \<Rightarrow> (Inl (TransactionNotFoundException i), tm)
      | Some transaction \<Rightarrow>
          if is_committed transaction then (Inr False, tm)
          else if is_aborted transaction then (Inr True, tm)
          else
            (let marked = transaction\<lparr>is_aborted := True, is_active := False\<rparr>;
                 tm1 = tm\<lparr>active_transactions := (active_transactions tm)(i \<mapsto> marked)\<rparr>
             in (Inl UndefinedBehaviour,
                 tm1\<lparr>active_transactions := (active_transactions tm1)(i := None)\<rparr>)))"

definition add_log_entry ::
  "64 word \<Rightarrow> LogEntry \<Rightarrow> TransactionManager \<Rightarrow> (error + unit) \<times> TransactionManager" where
  "add_log_entry i entry tm =
     (case active_transactions tm i of
        None \<Rightarrow> (Inl (TransactionNotFoundException i), tm)
      | Some transaction \<Rightarrow>
          if \<not> is_active transaction then (Inl (TransactionAbortedException i), tm)
          else
            (Inr (),
             tm\<lparr>active_transactions :=
                  (active_transactions tm)
                    (i \<mapsto> transaction\<lparr>log_entries :=
                                       log_entries transaction @ [update_checksum entry]\<rparr>)\<rparr>))"

subsection \<open>Recovery\<close>

text \<open>
  What the loop of \<^verbatim>\<open>replay_log_entries\<close> does with an entry it has read: a valid one
  is counted (nothing else: the source applies no change), an invalid one is reported by
  a warning and left out of the count.
\<close>

definition replay_entry :: "LogEntry \<Rightarrow> nat \<Rightarrow> nat" where
  "replay_entry entry replayed_entries =
     (if LogEntry_is_valid entry then u32 (replayed_entries + 1) else replayed_entries)"

lemma sread_gcount: "sread f n = (bs, f') \<Longrightarrow> \<not> in_failbit f' \<Longrightarrow> gcount f' = n"
  by (auto simp: sread_def split: if_splits)

lemma deserialize_throws: "fst (deserialize f) \<noteq> Inr entry"
proof (cases "in_open f")
  case False
  then show ?thesis by (simp add: deserialize_def)
next
  case True
  obtain b1 f1 where r1: "sread f 8 = (b1, f1)" by (cases "sread f 8")
  obtain b2 f2 where r2: "sread f1 4 = (b2, f2)" by (cases "sread f1 4")
  obtain b3 f3 where r3: "sread f2 4 = (b3, f3)" by (cases "sread f2 4")
  obtain b4 f4 where r4: "sread f3 4 = (b4, f4)" by (cases "sread f3 4")
  obtain b5 f5 where r5: "sread f4 8 = (b5, f5)" by (cases "sread f4 8")
  obtain b6 f6 where r6: "sread f5 4 = (b6, f6)" by (cases "sread f5 4")
  from sread_gcount [OF r6] have "in_failbit f6 \<or> gcount f6 \<noteq> 8 + 4 + 4 + 4 + 8 + 4"
    by auto
  with True r1 r2 r3 r4 r5 r6 show ?thesis
    by (simp add: deserialize_def)
qed

text \<open>
  The loop of \<^verbatim>\<open>replay_log_entries\<close>. The result is \<^verbatim>\<open>replayed_entries\<close> and the
  exception the \<^verbatim>\<open>catch\<close> around the loop caught, if any.
\<close>

function replay_loop :: "ifstream \<Rightarrow> nat \<Rightarrow> nat \<times> error option" where
  "replay_loop f replayed_entries =
     (if good f \<and> \<not> in_eofbit f then
        (case deserialize f of
           (Inl e, f') \<Rightarrow> (replayed_entries, Some e)
         | (Inr entry, f') \<Rightarrow>
             replay_loop f'
               (if good f' then replay_entry entry replayed_entries else replayed_entries))
      else (replayed_entries, None))"
  by pat_completeness auto
termination
proof (relation "measure (\<lambda>(f, n). length (unread f))", goal_cases)
  case 1
  show ?case by simp
next
  case 2
  then show ?case using deserialize_throws by (metis fst_conv)
qed

declare replay_loop.simps [simp del]

definition replay_log_entries :: "8 word list option \<Rightarrow> nat \<times> error option" where
  "replay_log_entries contents =
     (let log_file = ifstream_open contents
      in if \<not> in_open log_file then (0, None) else replay_loop log_file 0)"

text \<open>
  \<^verbatim>\<open>recover\<close>: \<open>contents\<close> is what the file at \<open>log_file_path\<close> holds. The replay
  catches what it throws, so \<^verbatim>\<open>recover\<close> returns normally; no member of the manager is
  assigned on the way.
\<close>

definition recover ::
  "8 word list option \<Rightarrow> TransactionManager \<Rightarrow> (error + unit) \<times> TransactionManager" where
  "recover contents tm =
     (case replay_log_entries contents of (replayed_entries, caught) \<Rightarrow> (Inr (), tm))"

section \<open>Example states\<close>

text \<open>
  A manager freshly constructed over an empty log; a record to stage (its checksum field
  is still 0, which is not its checksum); the state after \<^verbatim>\<open>begin_transaction\<close>
  (which hands out id 1) and one \<^verbatim>\<open>add_log_entry\<close>. Then the same over a device
  that accepts no byte, with one record staged and with two, and the latter state after
  the commit, which fails at the second record.
\<close>

definition tm_fresh :: TransactionManager where
  "tm_fresh =
     \<lparr>active_transactions = Map.empty, next_transaction_id = 1, log_file_path = ''wal.log'',
      log_file = \<lparr>is_open = True, failbit = False, buffered = [], flushed = [],
                  room = 4096\<rparr>,
      transaction_timeout = 30\<rparr>"

definition staged_entry :: LogEntry where
  "staged_entry =
     \<lparr>transaction_id = 1, operation_type = 2, inode_number = 5, block_number = 7,
      old_data = [], new_data = [104, 105], timestamp = 0, checksum = 0\<rparr>"

definition tm_staged :: TransactionManager where
  "tm_staged = snd (add_log_entry 1 staged_entry (snd (begin_transaction 0 tm_fresh)))"

definition tm_full :: TransactionManager where
  "tm_full =
     \<lparr>active_transactions = Map.empty, next_transaction_id = 1, log_file_path = ''wal.log'',
      log_file = \<lparr>is_open = True, failbit = False, buffered = [], flushed = [], room = 0\<rparr>,
      transaction_timeout = 30\<rparr>"

definition tm_full_staged :: TransactionManager where
  "tm_full_staged = snd (add_log_entry 1 staged_entry (snd (begin_transaction 0 tm_full)))"

definition tm_two_staged :: TransactionManager where
  "tm_two_staged =
     snd (add_log_entry 1 staged_entry
            (snd (add_log_entry 1 staged_entry (snd (begin_transaction 0 tm_full)))))"

definition tm_failed_commit :: TransactionManager where
  "tm_failed_commit = snd (commit_transaction 1 tm_two_staged)"

text \<open>
  A record of transaction 1 whose \<open>operation_type\<close> is 9, standing for COMMIT (the tenth
  operation the specification lists; the source gives the codes no names); a manager
  constructed over a log that already holds \<open>bs\<close>; a log with a valid record of
  transaction 1 followed by that COMMIT record; and a log whose first record is valid
  and whose second record has a wrong checksum.
\<close>

definition commit_marker :: LogEntry where
  "commit_marker =
     \<lparr>transaction_id = 1, operation_type = 9, inode_number = 0, block_number = 0,
      old_data = [], new_data = [], timestamp = 0, checksum = 0\<rparr>"

definition tm_over :: "8 word list \<Rightarrow> TransactionManager" where
  "tm_over bs =
     \<lparr>active_transactions = Map.empty, next_transaction_id = 1, log_file_path = ''wal.log'',
      log_file = \<lparr>is_open = True, failbit = False, buffered = [], flushed = bs,
                  room = 4096\<rparr>,
      transaction_timeout = 30\<rparr>"

definition committed_wal :: "8 word list" where
  "committed_wal =
     entry_bytes (update_checksum staged_entry) @ entry_bytes (update_checksum commit_marker)"

definition corrupt_wal :: "8 word list" where
  "corrupt_wal = entry_bytes (update_checksum staged_entry) @ entry_bytes staged_entry"

section \<open>Evaluating the model on concrete states\<close>

lemma replicate_numeral_unfold: "replicate (numeral k) x = x # replicate (pred_numeral k) x"
  by (simp add: numeral_eq_Suc)

lemma list_update_numeral_unfold: "(x # xs)[numeral k := y] = x # xs[pred_numeral k := y]"
  by (simp add: numeral_eq_Suc)

lemma scattered_numeral:
  "scattered (numeral n) count bm al =
     (case find_next_free_block bm (next_free_block bm) of
        Inl e \<Rightarrow> (Inl e, bm)
      | Inr block_id \<Rightarrow>
          if block_id = UINT32_MAX then
            (case release_all (block_bitmap bm) al of
               Inl e \<Rightarrow> (Inl e, bm)
             | Inr v \<Rightarrow>
                 (case get_free_block_count True (bm\<lparr>block_bitmap := v\<rparr>) of
                    Inl e \<Rightarrow> (Inl e, bm\<lparr>block_bitmap := v\<rparr>)
                  | Inr available \<Rightarrow>
                      (Inl (InsufficientSpaceException count available),
                       bm\<lparr>block_bitmap := v\<rparr>)))
          else
            (case vset (block_bitmap bm) block_id False of
               Inl e \<Rightarrow> (Inl e, bm)
             | Inr v \<Rightarrow>
                 if total_blocks bm = 0 then (Inl UndefinedBehaviour, bm\<lparr>block_bitmap := v\<rparr>)
                 else
                   scattered (pred_numeral n) count
                     (bm\<lparr>block_bitmap := v,
                        next_free_block := u32 (block_id + 1) mod total_blocks bm\<rparr>)
                     (al @ [block_id])))"
  unfolding numeral_eq_Suc by (rule scattered.simps(2))

lemmas eval_simps = replicate_numeral_unfold list_update_numeral_unfold vget_def vset_def
  u32_def UINT32_MAX_def scan_free.simps get_free_block_count_def get_free_inode_count_def

section \<open>What the helper loops return\<close>

lemma vget_Inl: "vget v i = Inl e \<Longrightarrow> e = UndefinedBehaviour"
  by (simp add: vget_def split: if_splits)

lemma vset_Inl: "vset v i x = Inl e \<Longrightarrow> e = UndefinedBehaviour"
  by (simp add: vset_def split: if_splits)

lemma scan_free_Inl: "scan_free v i hi = Inl e \<Longrightarrow> e = UndefinedBehaviour"
proof (induction v i hi rule: scan_free.induct)
  case (1 v i hi)
  note u = scan_free.simps [of v i hi]
  from "1.prems" "1.IH" show ?case
    unfolding u by (auto split: if_splits sum.splits dest: vget_Inl)
qed

lemma find_next_free_block_Inl:
  "find_next_free_block bm s = Inl e \<Longrightarrow> e = UndefinedBehaviour"
  by (auto simp: find_next_free_block_def split: sum.splits option.splits dest: scan_free_Inl)

lemma contiguous_scan_Inl:
  "contiguous_scan bm count i s c cur = Inl e \<Longrightarrow> e = UndefinedBehaviour"
proof (induction bm count i s c cur rule: contiguous_scan.induct)
  case (1 bm count i s c cur)
  note u = contiguous_scan.simps [of bm count i s c cur]
  from "1.prems" "1.IH" show ?case
    unfolding u by (auto split: if_splits sum.splits dest: vget_Inl)
qed

lemma mark_run_Inl:
  "mark_run n s js v acc = Inl e \<Longrightarrow> e = UndefinedBehaviour"
  by (induction js arbitrary: v acc) (auto split: sum.splits dest: vset_Inl)

lemma release_all_Inl: "release_all v as = Inl e \<Longrightarrow> e = UndefinedBehaviour"
  by (induction as arbitrary: v) (auto split: sum.splits dest: vset_Inl)

lemma scan_free_Some:
  "scan_free v i hi = Inr (Some c) \<Longrightarrow> c < length v \<and> v ! c"
proof (induction v i hi rule: scan_free.induct)
  case (1 v i hi)
  note u = scan_free.simps [of v i hi]
  from "1.prems" "1.IH" show ?case
    unfolding u by (auto simp: vget_def split: if_splits)
qed

lemma find_next_free_block_hit:
  assumes "find_next_free_block bm s = Inr c" "c \<noteq> UINT32_MAX"
  shows "c < length (block_bitmap bm) \<and> block_bitmap bm ! c"
  using assms
  by (auto simp: find_next_free_block_def split: sum.splits option.splits dest: scan_free_Some)

lemma release_all_nth:
  "release_all v as = Inr v' \<Longrightarrow>
     length v' = length v \<and> (\<forall>i<length v. v' ! i = (i \<in> set as \<or> v ! i))"
proof (induction as arbitrary: v)
  case Nil
  then show ?case by simp
next
  case (Cons a as)
  from Cons.prems obtain v1 where v1: "vset v a True = Inr v1" "release_all v1 as = Inr v'"
    by (auto split: sum.splits)
  from v1(1) have a: "a < length v" "v1 = v[a := True]"
    by (auto simp: vset_def split: if_splits)
  from Cons.IH [OF v1(2)] a show ?case
    by (auto simp: nth_list_update)
qed

lemma scattered_rollback:
  assumes "scattered k count bm alloc = (Inl Deadlock, bm')"
    and "length (block_bitmap bm) = length orig"
    and "\<forall>x\<in>set alloc. x < length orig \<and> orig ! x"
    and "\<forall>i<length orig. i \<notin> set alloc \<longrightarrow> block_bitmap bm ! i = orig ! i"
  shows "block_bitmap bm' = orig"
  using assms
proof (induction k arbitrary: bm alloc)
  case 0
  then show ?case by simp
next
  case (Suc k)
  from Suc.prems(1) obtain c where c: "find_next_free_block bm (next_free_block bm) = Inr c"
    by (auto split: sum.splits dest: find_next_free_block_Inl)
  show ?case
  proof (cases "c = UINT32_MAX")
    case True
    with Suc.prems(1) c obtain v where v: "release_all (block_bitmap bm) alloc = Inr v"
      and bm': "bm' = bm\<lparr>block_bitmap := v\<rparr>"
      by (auto simp: get_free_block_count_def split: sum.splits dest: release_all_Inl)
    from release_all_nth [OF v] Suc.prems(2-4) have "v = orig"
      by (intro nth_equalityI) auto
    with bm' show ?thesis by simp
  next
    case False
    from find_next_free_block_hit [OF c False]
    have hit: "c < length (block_bitmap bm)" "block_bitmap bm ! c" by simp_all
    let ?bm1 = "bm\<lparr>block_bitmap := (block_bitmap bm)[c := False],
                     next_free_block := u32 (c + 1) mod total_blocks bm\<rparr>"
    from Suc.prems(1) c False hit
    have rec: "scattered k count ?bm1 (alloc @ [c]) = (Inl Deadlock, bm')"
      by (auto simp: vset_def split: if_splits)
    have "orig ! c" using hit Suc.prems(2-4) by (cases "c \<in> set alloc") auto
    then show ?thesis
      using Suc.IH [OF rec] Suc.prems(2-4) hit by (auto simp: nth_list_update)
  qed
qed

lemma scan_free_find:
  "hi \<le> length v \<Longrightarrow> scan_free v i hi = Inr (List.find (\<lambda>k. v ! k) [i..<hi])"
proof (induction v i hi rule: scan_free.induct)
  case (1 v i hi)
  show ?case
  proof (cases "i < hi")
    case True
    with 1 show ?thesis
      by (subst scan_free.simps) (simp add: vget_def upt_conv_Cons)
  next
    case False
    then show ?thesis by (subst scan_free.simps) simp
  qed
qed

lemma find_append_case:
  "List.find P (xs @ ys) = (case List.find P xs of None \<Rightarrow> List.find P ys | Some x \<Rightarrow> Some x)"
  by (induction xs) auto

lemma find_next_free_block_find:
  assumes "length (block_bitmap bm) = total_blocks bm" "s \<le> total_blocks bm"
  shows "find_next_free_block bm s =
     Inr (case first_free_from (block_bitmap bm) s (total_blocks bm) of
            None \<Rightarrow> UINT32_MAX | Some c \<Rightarrow> c)"
  using assms
  by (simp add: find_next_free_block_def first_free_from_def scan_free_find find_append_case
      split: option.splits)

lemma find_Some_mem: "List.find P xs = Some x \<Longrightarrow> x \<in> set xs \<and> P x"
  by (induction xs) (auto split: if_splits)

lemma first_free_from_Some:
  assumes "first_free_from v s n = Some c" "s \<le> n"
  shows "c < n \<and> v ! c"
proof -
  from assms(1) have "c \<in> set ([s..<n] @ [0..<s]) \<and> v ! c"
    unfolding first_free_from_def by (rule find_Some_mem)
  with assms(2) show ?thesis by auto
qed

lemma first_free_from_None:
  assumes "s \<le> n"
  shows "(first_free_from v s n = None) = (\<forall>i<n. \<not> v ! i)"
proof -
  have "set ([s..<n] @ [0..<s]) = {0..<n}" using assms by auto
  then show ?thesis
    unfolding first_free_from_def find_None_iff by (metis atLeastLessThan_iff zero_le)
qed

section \<open>Single-block allocation\<close>

text \<open>
  The shape of a manager's state that the constructor establishes and that
  \<open>allocate_block\<close> and \<open>deallocate_block\<close> keep: the bitmap has \<open>total_blocks\<close>
  entries and the hint does not exceed \<open>total_blocks\<close>. These are the hypotheses
  of the theorem that follows.
\<close>

lemma BlockManager_new_shape:
  "n < 2 ^ 32 \<Longrightarrow>
     length (block_bitmap (BlockManager_new n b)) = total_blocks (BlockManager_new n b) \<and>
     next_free_block (BlockManager_new n b) \<le> total_blocks (BlockManager_new n b) \<and>
     total_blocks (BlockManager_new n b) < 2 ^ 32"
  by (simp add: BlockManager_new_def)

lemma allocate_block_shape:
  assumes "length (block_bitmap bm) = total_blocks bm"
    and "next_free_block bm \<le> total_blocks bm"
    and "total_blocks bm < 2 ^ 32"
  shows "length (block_bitmap (snd (allocate_block bm))) = total_blocks (snd (allocate_block bm)) \<and>
     next_free_block (snd (allocate_block bm)) \<le> total_blocks (snd (allocate_block bm)) \<and>
     total_blocks (snd (allocate_block bm)) < 2 ^ 32"
  using assms
  by (auto simp: allocate_block_def vset_def get_free_block_count_def
      split: sum.splits if_splits intro: less_imp_le mod_less_divisor)

lemma deallocate_block_shape:
  assumes "length (block_bitmap bm) = total_blocks bm"
    and "next_free_block bm \<le> total_blocks bm"
    and "total_blocks bm < 2 ^ 32"
  shows "length (block_bitmap (snd (deallocate_block bm i))) =
       total_blocks (snd (deallocate_block bm i)) \<and>
     next_free_block (snd (deallocate_block bm i)) \<le> total_blocks (snd (deallocate_block bm i)) \<and>
     total_blocks (snd (deallocate_block bm i)) < 2 ^ 32"
  using assms
  by (auto simp: deallocate_block_def vget_def vset_def split: sum.splits if_splits)

text \<open>
  In every state of that shape \<open>allocate_block\<close> does what the reference scan says:
  when a block is free it returns the first free block in the order hint, ...,
  \<open>total_blocks - 1\<close>, 0, ..., hint - 1, clears its bit and moves the hint to
  \<open>(chosen + 1) mod total_blocks\<close>; when no block is free it takes the mutex it holds
  and does not return.
\<close>

theorem allocate_block_first_free_from_hint:
  assumes "length (block_bitmap bm) = total_blocks bm"
    and "next_free_block bm \<le> total_blocks bm"
    and "total_blocks bm < 2 ^ 32"
  shows "allocate_block bm =
     (case first_free_from (block_bitmap bm) (next_free_block bm) (total_blocks bm) of
        None \<Rightarrow> (Inl Deadlock, bm)
      | Some c \<Rightarrow>
          (Inr c, bm\<lparr>block_bitmap := (block_bitmap bm)[c := False],
                     next_free_block := (c + 1) mod total_blocks bm\<rparr>)) \<and>
     ((first_free_from (block_bitmap bm) (next_free_block bm) (total_blocks bm) = None) =
      (\<forall>i<total_blocks bm. \<not> block_bitmap bm ! i))"
proof (cases "first_free_from (block_bitmap bm) (next_free_block bm) (total_blocks bm)")
  case None
  then show ?thesis
    using assms first_free_from_None [OF assms(2), of "block_bitmap bm"]
    by (simp add: allocate_block_def find_next_free_block_find get_free_block_count_def)
next
  case (Some c)
  from first_free_from_Some [OF Some assms(2)] have c: "c < total_blocks bm" by simp
  with assms(3) have "c \<noteq> UINT32_MAX" "u32 (c + 1) = c + 1"
    by (simp_all add: UINT32_MAX_def u32_def)
  with c Some assms first_free_from_None [OF assms(2), of "block_bitmap bm"] show ?thesis
    by (simp add: allocate_block_def find_next_free_block_find vset_def)
qed

theorem allocate_block_first_free_from_hint_witness:
  "allocate_block \<lparr>block_bitmap = [False, True, False, False], total_blocks = 4,
                   block_size = 4096, next_free_block = 2\<rparr> =
     (Inr 1, \<lparr>block_bitmap = [False, False, False, False], total_blocks = 4,
              block_size = 4096, next_free_block = 2\<rparr>) \<and>
   allocate_block \<lparr>block_bitmap = [False, False, False, False], total_blocks = 4,
                   block_size = 4096, next_free_block = 2\<rparr> =
     (Inl Deadlock,
      \<lparr>block_bitmap = [False, False, False, False], total_blocks = 4,
       block_size = 4096, next_free_block = 2\<rparr>)"
  using allocate_block_first_free_from_hint
      [of "\<lparr>block_bitmap = [False, True, False, False], total_blocks = 4,
            block_size = 4096, next_free_block = 2\<rparr>"]
    allocate_block_first_free_from_hint
      [of "\<lparr>block_bitmap = [False, False, False, False], total_blocks = 4,
            block_size = 4096, next_free_block = 2\<rparr>"]
  by (simp add: first_free_from_def upt_conv_Cons)

text \<open>
  C6 fails on the code in its second half. A manager of 2 blocks hands out block 1; the
  next \<open>allocate_block\<close> finds no free block, and instead of throwing
  \<open>InsufficientSpaceException\<close> it blocks: the argument of the \<^verbatim>\<open>throw\<close> locks
  \<^verbatim>\<open>bitmap_mutex_\<close>, which \<open>allocate_block\<close> holds. The bitmap is as before the call.
\<close>

theorem allocate_block_without_free_block_blocks:
  "fst (allocate_block (BlockManager_new 2 4096)) = Inr 1 \<and>
   block_bitmap (snd (allocate_block (BlockManager_new 2 4096))) = [False, False] \<and>
   fst (allocate_block (snd (allocate_block (BlockManager_new 2 4096)))) = Inl Deadlock \<and>
   snd (allocate_block (snd (allocate_block (BlockManager_new 2 4096)))) =
     snd (allocate_block (BlockManager_new 2 4096))"
  by (simp add: allocate_block_def find_next_free_block_def BlockManager_new_def eval_simps)

section \<open>Multi-block allocation\<close>

text \<open>\<open>allocate_blocks\<close> keeps the shape of the state as well.\<close>

lemma mark_run_length:
  "mark_run n s js v acc = Inr (v', acc') \<Longrightarrow> length v' = length v"
proof (induction js arbitrary: v acc)
  case Nil
  then show ?case by simp
next
  case (Cons j js)
  from Cons.prems obtain v1 where v1: "vset v (u32 (s + j) mod n) False = Inr v1"
    and rest: "mark_run n s js v1 (acc @ [u32 (s + j) mod n]) = Inr (v', acc')"
    by (auto split: sum.splits)
  from v1 have "length v1 = length v" by (auto simp: vset_def split: if_splits)
  with Cons.IH [OF rest] show ?case by simp
qed

lemma release_all_length: "release_all v as = Inr v' \<Longrightarrow> length v' = length v"
  using release_all_nth by blast

lemma scattered_shape:
  assumes "length (block_bitmap bm) = total_blocks bm"
    and "next_free_block bm \<le> total_blocks bm"
  shows "length (block_bitmap (snd (scattered k count bm al))) =
       total_blocks (snd (scattered k count bm al)) \<and>
     next_free_block (snd (scattered k count bm al)) \<le>
       total_blocks (snd (scattered k count bm al)) \<and>
     total_blocks (snd (scattered k count bm al)) = total_blocks bm"
  using assms
proof (induction k arbitrary: bm al)
  case 0
  then show ?case by simp
next
  case (Suc k)
  show ?case
  proof (cases "find_next_free_block bm (next_free_block bm)")
    case (Inl e)
    with Suc.prems show ?thesis by simp
  next
    case (Inr c)
    show ?thesis
    proof (cases "c = UINT32_MAX")
      case True
      with Inr Suc.prems show ?thesis
        by (auto simp: get_free_block_count_def split: sum.splits dest: release_all_length)
    next
      case False
      show ?thesis
      proof (cases "vset (block_bitmap bm) c False")
        case (Inl e)
        with Inr False Suc.prems show ?thesis by simp
      next
        case v: (Inr v)
        then have lv: "length v = length (block_bitmap bm)"
          by (auto simp: vset_def split: if_splits)
        show ?thesis
        proof (cases "total_blocks bm = 0")
          case True
          with v lv Inr False Suc.prems show ?thesis by simp
        next
          case nz: False
          let ?bm1 = "bm\<lparr>block_bitmap := v,
                          next_free_block := u32 (c + 1) mod total_blocks bm\<rparr>"
          have "length (block_bitmap ?bm1) = total_blocks ?bm1"
            "next_free_block ?bm1 \<le> total_blocks ?bm1"
            using lv Suc.prems nz by (simp_all add: less_imp_le)
          from Suc.IH [OF this, of "al @ [c]"] v Inr False nz show ?thesis by simp
        qed
      qed
    qed
  qed
qed

lemma allocate_blocks_shape:
  assumes "length (block_bitmap bm) = total_blocks bm"
    and "next_free_block bm \<le> total_blocks bm"
    and "total_blocks bm < 2 ^ 32"
  shows "length (block_bitmap (snd (allocate_blocks bm n))) =
       total_blocks (snd (allocate_blocks bm n)) \<and>
     next_free_block (snd (allocate_blocks bm n)) \<le> total_blocks (snd (allocate_blocks bm n)) \<and>
     total_blocks (snd (allocate_blocks bm n)) < 2 ^ 32"
proof (cases "n = 0")
  case True
  with assms show ?thesis by (simp add: allocate_blocks_def)
next
  case n: False
  show ?thesis
  proof (cases "contiguous_scan bm n 0 (next_free_block bm) 0 (next_free_block bm)")
    case (Inl e)
    with n assms show ?thesis by (simp add: allocate_blocks_def)
  next
    case (Inr r)
    show ?thesis
    proof (cases r)
      case None
      with Inr n assms scattered_shape [OF assms(1,2), of n n "[]"] show ?thesis
        by (simp add: allocate_blocks_def)
    next
      case (Some start)
      have pos: "0 < total_blocks bm"
        using Inr Some by (subst (asm) contiguous_scan.simps) (auto split: if_splits)
      show ?thesis
      proof (cases "mark_run (total_blocks bm) start [0..<n] (block_bitmap bm) []")
        case (Inl e)
        with Inr Some n assms show ?thesis by (simp add: allocate_blocks_def)
      next
        case m: (Inr p)
        obtain v acc where p: "p = (v, acc)" by (cases p)
        from m p mark_run_length have "length v = length (block_bitmap bm)" by blast
        with m p Inr Some n assms pos show ?thesis
          by (simp add: allocate_blocks_def less_imp_le)
      qed
    qed
  qed
qed

text \<open>
  Whenever \<open>allocate_blocks bm n\<close> ends blocked (only the scattered path does, when
  \<open>find_next_free_block\<close> finds nothing), the roll-back loop has run: the bitmap is the
  bitmap at entry.
\<close>

theorem allocate_blocks_restores_bitmap_before_blocking:
  assumes "allocate_blocks bm n = (Inl Deadlock, bm')"
  shows "block_bitmap bm' = block_bitmap bm"
proof -
  from assms have "scattered n n bm [] = (Inl Deadlock, bm')"
    by (auto simp: allocate_blocks_def split: if_splits sum.splits option.splits
        dest: contiguous_scan_Inl mark_run_Inl)
  from scattered_rollback [OF this, of "block_bitmap bm"] show ?thesis by simp
qed

theorem allocate_blocks_restores_bitmap_before_blocking_witness:
  "fst (allocate_blocks \<lparr>block_bitmap = [False, True, False, True], total_blocks = 4,
                         block_size = 4096, next_free_block = 1\<rparr> 3) = Inl Deadlock \<and>
   block_bitmap (snd (allocate_blocks \<lparr>block_bitmap = [False, True, False, True],
                         total_blocks = 4, block_size = 4096, next_free_block = 1\<rparr> 3)) =
     [False, True, False, True]"
proof -
  let ?bm = "\<lparr>block_bitmap = [False, True, False, True], total_blocks = 4,
              block_size = 4096, next_free_block = 1\<rparr>"
  have run: "allocate_blocks ?bm 3 = (Inl Deadlock, ?bm\<lparr>next_free_block := 0\<rparr>)"
    by (simp add: allocate_blocks_def contiguous_scan.simps find_next_free_block_def
        scattered_numeral eval_simps)
  from allocate_blocks_restores_bitmap_before_blocking [OF run] run
  show ?thesis by simp
qed

text \<open>
  C7 fails on the code. On a fresh manager of 2 blocks \<open>allocate_blocks 2\<close> finds no
  run of 2, marks block 1 on the scattered path, finds no second block and unmarks
  block 1; then, instead of throwing \<open>InsufficientSpaceException\<close>, it blocks in the
  argument of the \<^verbatim>\<open>throw\<close>, which locks \<^verbatim>\<open>bitmap_mutex_\<close> a second time. The call
  does not fail with the exception and does not return.
\<close>

theorem allocate_blocks_scattered_failure_blocks:
  "block_bitmap (BlockManager_new 2 4096) = [False, True] \<and>
   fst (allocate_blocks (BlockManager_new 2 4096) 2) = Inl Deadlock \<and>
   block_bitmap (snd (allocate_blocks (BlockManager_new 2 4096) 2)) = [False, True] \<and>
   next_free_block (snd (allocate_blocks (BlockManager_new 2 4096) 2)) = 0"
  by (simp add: allocate_blocks_def contiguous_scan.simps find_next_free_block_def
      BlockManager_new_def scattered_numeral eval_simps)

section \<open>Deallocation of block 0\<close>

text \<open>
  C8. The out-of-range half holds: an id at or beyond \<open>total_blocks\<close> is refused with
  \<open>BlockNotFoundException\<close> and the state is untouched.
\<close>

theorem deallocate_block_out_of_range:
  "total_blocks bm \<le> block_id \<Longrightarrow>
     deallocate_block bm block_id = (Inl (BlockNotFoundException block_id), bm)"
  by (simp add: deallocate_block_def)

theorem deallocate_block_out_of_range_witness:
  "deallocate_block (BlockManager_new 10 4096) 10 =
     (Inl (BlockNotFoundException 10), BlockManager_new 10 4096)"
  using deallocate_block_out_of_range [of "BlockManager_new 10 4096" 10]
  by (simp add: BlockManager_new_def)

text \<open>
  C8, the half that fails. \<open>deallocate_block\<close> has no test for id 0: on a fresh manager
  of 10 blocks the call returns normally, block 0 (the superblock's) becomes free, and
  \<open>BlockManager::is_valid\<close>, which checks that block 0 is reserved, turns false.
\<close>

theorem deallocate_block_zero_frees_block_zero:
  "fst (deallocate_block (BlockManager_new 10 4096) 0) = Inr () \<and>
   block_bitmap (BlockManager_new 10 4096) =
     [False, True, True, True, True, True, True, True, True, True] \<and>
   block_bitmap (snd (deallocate_block (BlockManager_new 10 4096) 0)) =
     [True, True, True, True, True, True, True, True, True, True] \<and>
   is_block_free (snd (deallocate_block (BlockManager_new 10 4096) 0)) 0 = Inr True \<and>
   BlockManager_is_valid (BlockManager_new 10 4096) = Inr True \<and>
   BlockManager_is_valid (snd (deallocate_block (BlockManager_new 10 4096) 0)) = Inr False"
  by (simp add: deallocate_block_def BlockManager_new_def BlockManager_is_valid_def
      is_block_free_def eval_simps)

section \<open>Inode 0\<close>

text \<open>
  C9 fails on the code. In a table of 3 inodes the first \<open>allocate_inode\<close> returns 2 and
  wraps the hint to 0; \<open>deallocate_inode 0\<close> is accepted and marks inode 0 free; the
  next \<open>allocate_inode\<close> starts its first loop at the hint 0 and returns inode 0.
\<close>

theorem inode_zero_freed_then_allocated:
  "fst (allocate_inode (InodeTable_new 3)) = Inr 2 \<and>
   next_free_inode (snd (allocate_inode (InodeTable_new 3))) = 0 \<and>
   fst (deallocate_inode (snd (allocate_inode (InodeTable_new 3))) 0) = Inr () \<and>
   is_inode_free (snd (deallocate_inode (snd (allocate_inode (InodeTable_new 3))) 0)) 0 =
     Inr True \<and>
   fst (allocate_inode (snd (deallocate_inode (snd (allocate_inode (InodeTable_new 3))) 0))) =
     Inr 0"
  by (simp add: allocate_inode_def deallocate_inode_def InodeTable_new_def is_inode_free_def
      take_inode_def eval_simps)

section \<open>Commit\<close>

lemma le_bytes_length: "length (le_bytes k n) = k"
  by (simp add: le_bytes_def)

lemma entry_bytes_length: "40 \<le> length (entry_bytes e)"
  by (simp add: entry_bytes_def Let_def le_bytes_length)

lemma write_log_entry_ok:
  "is_open f \<Longrightarrow> \<not> failbit f \<Longrightarrow> length (buffered f) + length (entry_bytes e) \<le> room f \<Longrightarrow>
     write_log_entry e f =
       (Inr (), f\<lparr>buffered := [], flushed := flushed f @ buffered f @ entry_bytes e,
                  room := room f - (length (buffered f) + length (entry_bytes e))\<rparr>)"
  by (simp add: write_log_entry_def serialize_def swrite_def flush_def Let_def)

lemma write_entries_ok:
  "is_open f \<Longrightarrow> \<not> failbit f \<Longrightarrow>
   length (buffered f) + length (concat (map entry_bytes es)) \<le> room f \<Longrightarrow>
     write_entries es f =
       (Inr (), if es = [] then f
                else f\<lparr>buffered := [],
                       flushed := flushed f @ buffered f @ concat (map entry_bytes es),
                       room := room f -
                         (length (buffered f) + length (concat (map entry_bytes es)))\<rparr>)"
proof (induction es arbitrary: f)
  case Nil
  then show ?case by simp
next
  case (Cons e es)
  let ?f1 = "f\<lparr>buffered := [], flushed := flushed f @ buffered f @ entry_bytes e,
               room := room f - (length (buffered f) + length (entry_bytes e))\<rparr>"
  have "is_open ?f1" "\<not> failbit ?f1"
    "length (buffered ?f1) + length (concat (map entry_bytes es)) \<le> room ?f1"
    using Cons.prems by simp_all
  from Cons.IH [OF this] Cons.prems show ?case
    by (simp add: write_log_entry_ok)
qed

subsection \<open>The example states\<close>

lemma tm_fresh_constructed: "TransactionManager_new ''wal.log'' (Some []) 4096 = Inr tm_fresh"
  by (simp add: TransactionManager_new_def tm_fresh_def)

lemma tm_full_constructed: "TransactionManager_new ''wal.log'' (Some []) 0 = Inr tm_full"
  by (simp add: TransactionManager_new_def tm_full_def)

lemma tm_over_constructed:
  "TransactionManager_new ''wal.log'' (Some bs) 4096 = Inr (tm_over bs)"
  by (simp add: TransactionManager_new_def tm_over_def)

lemma staged_entry_bytes_length: "length (entry_bytes (update_checksum staged_entry)) = 42"
  by (simp add: entry_bytes_def update_checksum_def staged_entry_def le_bytes_length u32_def
      Let_def)

lemma tm_staged_eq:
  "tm_staged =
     \<lparr>active_transactions =
        [1 \<mapsto> \<lparr>tx_id = 1, log_entries = [update_checksum staged_entry], start_time = 0,
                 is_active = True, is_committed = False, is_aborted = False\<rparr>],
      next_transaction_id = 2, log_file_path = ''wal.log'',
      log_file = \<lparr>is_open = True, failbit = False, buffered = [], flushed = [],
                  room = 4096\<rparr>,
      transaction_timeout = 30\<rparr>"
  by (simp add: tm_staged_def add_log_entry_def begin_transaction_def tm_fresh_def
      Transaction_new_def Let_def)

lemma tm_two_staged_eq:
  "tm_two_staged =
     \<lparr>active_transactions =
        [1 \<mapsto> \<lparr>tx_id = 1,
                 log_entries = [update_checksum staged_entry, update_checksum staged_entry],
                 start_time = 0, is_active = True, is_committed = False,
                 is_aborted = False\<rparr>],
      next_transaction_id = 2, log_file_path = ''wal.log'',
      log_file = \<lparr>is_open = True, failbit = False, buffered = [], flushed = [], room = 0\<rparr>,
      transaction_timeout = 30\<rparr>"
  by (simp add: tm_two_staged_def add_log_entry_def begin_transaction_def tm_full_def
      Transaction_new_def Let_def)

lemma tm_failed_commit_eq:
  "tm_failed_commit =
     \<lparr>active_transactions =
        [1 \<mapsto> \<lparr>tx_id = 1,
                 log_entries = [update_checksum staged_entry, update_checksum staged_entry],
                 start_time = 0, is_active = False, is_committed = False,
                 is_aborted = True\<rparr>],
      next_transaction_id = 2, log_file_path = ''wal.log'',
      log_file = \<lparr>is_open = True, failbit = True,
                  buffered = entry_bytes (update_checksum staged_entry), flushed = [],
                  room = 0\<rparr>,
      transaction_timeout = 30\<rparr>"
  by (simp add: tm_failed_commit_def tm_two_staged_eq commit_transaction_def
      write_log_entry_def serialize_def swrite_def flush_def staged_entry_bytes_length Let_def)

lemma failed_commit_result: "fst (commit_transaction 1 tm_two_staged) = Inr False"
  by (simp add: tm_two_staged_eq commit_transaction_def write_log_entry_def serialize_def
      swrite_def flush_def staged_entry_bytes_length Let_def)

lemma staged_commit_run:
  "commit_transaction 1 tm_staged =
     (Inl UndefinedBehaviour,
      \<lparr>active_transactions = Map.empty, next_transaction_id = 2, log_file_path = ''wal.log'',
       log_file = \<lparr>is_open = True, failbit = False, buffered = [],
                   flushed = entry_bytes (update_checksum staged_entry), room = 4054\<rparr>,
       transaction_timeout = 30\<rparr>)"
  by (simp add: tm_staged_eq commit_transaction_def write_log_entry_ok
      staged_entry_bytes_length Let_def)

lemma staged_rollback_run:
  "rollback_transaction 1 tm_staged =
     (Inl UndefinedBehaviour,
      \<lparr>active_transactions = Map.empty, next_transaction_id = 2, log_file_path = ''wal.log'',
       log_file = \<lparr>is_open = True, failbit = False, buffered = [], flushed = [],
                   room = 4096\<rparr>,
       transaction_timeout = 30\<rparr>)"
  by (simp add: tm_staged_eq rollback_transaction_def Let_def)

text \<open>
  On the device that accepts no byte, the commit of one staged record goes through the
  success branch (the refused flush is not looked at): the transaction is erased and the
  log file holds nothing. With a second record the refusal is noticed
  (\<open>failed_commit_result\<close>).
\<close>

lemma commit_on_refusing_device:
  "flushed (log_file (snd (commit_transaction 1 tm_full_staged))) = [] \<and>
   failbit (log_file (snd (commit_transaction 1 tm_full_staged))) \<and>
   active_transactions (snd (commit_transaction 1 tm_full_staged)) 1 = None"
  by (simp add: tm_full_staged_def add_log_entry_def begin_transaction_def tm_full_def
      Transaction_new_def commit_transaction_def write_log_entry_def serialize_def swrite_def
      flush_def staged_entry_bytes_length Let_def)

text \<open>
  C1, as the code has it. For a transaction of the active map that is neither committed
  nor aborted and has staged records, with the log stream open and not failed and a
  device that accepts the bytes, \<open>commit_transaction\<close> appends the bytes of every staged
  record to the log in staging order, flushing after each record, and nothing else: no
  COMMIT record follows. It then erases the transaction from the active map. (What the
  call returns after that is left open: the log statement before \<^verbatim>\<open>return true\<close> reads
  the erased transaction.)
\<close>

theorem commit_writes_staged_records_only:
  assumes "active_transactions tm i = Some t"
    and "is_active t" "\<not> is_committed t" "\<not> is_aborted t"
    and "log_entries t \<noteq> []"
    and "is_open (log_file tm)" "\<not> failbit (log_file tm)"
    and "length (buffered (log_file tm)) + length (concat (map entry_bytes (log_entries t)))
           \<le> room (log_file tm)"
  shows "snd (commit_transaction i tm) =
     tm\<lparr>log_file :=
          (log_file tm)\<lparr>buffered := [],
                         flushed := flushed (log_file tm) @ buffered (log_file tm) @
                                    concat (map entry_bytes (log_entries t)),
                         room := room (log_file tm) -
                           (length (buffered (log_file tm)) +
                            length (concat (map entry_bytes (log_entries t))))\<rparr>,
        active_transactions := (active_transactions tm)(i := None)\<rparr>"
  using assms by (simp add: commit_transaction_def write_entries_ok)

theorem commit_writes_staged_records_only_witness:
  "flushed (log_file (snd (commit_transaction 1 tm_staged))) =
     entry_bytes (update_checksum staged_entry) \<and>
   buffered (log_file (snd (commit_transaction 1 tm_staged))) = [] \<and>
   active_transactions (snd (commit_transaction 1 tm_staged)) 1 = None"
  using commit_writes_staged_records_only [of tm_staged 1
      "\<lparr>tx_id = 1, log_entries = [update_checksum staged_entry], start_time = 0,
        is_active = True, is_committed = False, is_aborted = False\<rparr>"]
  by (simp add: tm_staged_eq staged_entry_bytes_length)

text \<open>
  C1 as stated fails: after the commit of transaction 1 with one staged record the log
  holds the bytes of that record and no further record, whatever record \<open>c\<close> one takes
  for the COMMIT record.
\<close>

theorem commit_writes_no_commit_record:
  "\<not> (\<exists>c. flushed (log_file (snd (commit_transaction 1 tm_staged))) =
          concat (map entry_bytes [update_checksum staged_entry]) @ entry_bytes c)"
proof -
  have "entry_bytes c \<noteq> []" for c using entry_bytes_length [of c] by auto
  then show ?thesis by (simp add: staged_commit_run)
qed

section \<open>Commit and rollback on finished transactions\<close>

lemma commit_not_found:
  "active_transactions tm i = None \<Longrightarrow>
     commit_transaction i tm = (Inl (TransactionNotFoundException i), tm)"
  by (simp add: commit_transaction_def)

lemma rollback_not_found:
  "active_transactions tm i = None \<Longrightarrow>
     rollback_transaction i tm = (Inl (TransactionNotFoundException i), tm)"
  by (simp add: rollback_transaction_def)

text \<open>
  C4 fails on the code. The commit of transaction 1 erases it from the active map, so
  the second \<open>commit_transaction\<close> does not reach the branch that answers \<open>true\<close> for a
  committed transaction: the lookup before it throws \<open>TransactionNotFoundException\<close>.
  The same holds after a rollback. Only a transaction that a failed commit left in the
  map with the aborted flag reaches its branch, which returns \<open>false\<close>.
\<close>

theorem second_commit_is_not_found:
  "active_transactions tm_staged 1 \<noteq> None \<and>
   active_transactions (snd (commit_transaction 1 tm_staged)) 1 = None \<and>
   commit_transaction 1 (snd (commit_transaction 1 tm_staged)) =
     (Inl (TransactionNotFoundException 1), snd (commit_transaction 1 tm_staged)) \<and>
   commit_transaction 1 (snd (rollback_transaction 1 tm_staged)) =
     (Inl (TransactionNotFoundException 1), snd (rollback_transaction 1 tm_staged)) \<and>
   fst (commit_transaction 1 tm_two_staged) = Inr False \<and>
   commit_transaction 1 tm_failed_commit = (Inr False, tm_failed_commit)"
proof -
  have a: "active_transactions tm_staged 1 \<noteq> None"
    by (simp add: tm_staged_eq)
  have b: "active_transactions (snd (commit_transaction 1 tm_staged)) 1 = None"
    by (simp add: staged_commit_run)
  have c: "commit_transaction 1 (snd (commit_transaction 1 tm_staged)) =
      (Inl (TransactionNotFoundException 1), snd (commit_transaction 1 tm_staged))"
    by (rule commit_not_found) (rule b)
  have d: "commit_transaction 1 (snd (rollback_transaction 1 tm_staged)) =
      (Inl (TransactionNotFoundException 1), snd (rollback_transaction 1 tm_staged))"
    by (rule commit_not_found) (simp add: staged_rollback_run)
  have e: "commit_transaction 1 tm_failed_commit = (Inr False, tm_failed_commit)"
    by (simp add: commit_transaction_def tm_failed_commit_eq)
  from a b c d e failed_commit_result show ?thesis by blast
qed

text \<open>
  C5 fails on the code. After the commit of transaction 1, and after its rollback, the
  transaction is erased from the active map, so \<open>rollback_transaction\<close> does not reach
  its branches for a committed or an aborted transaction: the lookup before them throws
  \<open>TransactionNotFoundException\<close>. Only a transaction that a failed commit left in the
  map with the aborted flag gets the success no-op.
\<close>

theorem rollback_after_commit_is_not_found:
  "active_transactions tm_staged 1 \<noteq> None \<and>
   active_transactions (snd (commit_transaction 1 tm_staged)) 1 = None \<and>
   rollback_transaction 1 (snd (commit_transaction 1 tm_staged)) =
     (Inl (TransactionNotFoundException 1), snd (commit_transaction 1 tm_staged)) \<and>
   active_transactions (snd (rollback_transaction 1 tm_staged)) 1 = None \<and>
   rollback_transaction 1 (snd (rollback_transaction 1 tm_staged)) =
     (Inl (TransactionNotFoundException 1), snd (rollback_transaction 1 tm_staged)) \<and>
   rollback_transaction 1 tm_failed_commit = (Inr True, tm_failed_commit)"
proof -
  have a: "active_transactions tm_staged 1 \<noteq> None"
    by (simp add: tm_staged_eq)
  have b: "active_transactions (snd (commit_transaction 1 tm_staged)) 1 = None"
    by (simp add: staged_commit_run)
  have c: "rollback_transaction 1 (snd (commit_transaction 1 tm_staged)) =
      (Inl (TransactionNotFoundException 1), snd (commit_transaction 1 tm_staged))"
    by (rule rollback_not_found) (rule b)
  have d: "active_transactions (snd (rollback_transaction 1 tm_staged)) 1 = None"
    by (simp add: staged_rollback_run)
  have e: "rollback_transaction 1 (snd (rollback_transaction 1 tm_staged)) =
      (Inl (TransactionNotFoundException 1), snd (rollback_transaction 1 tm_staged))"
    by (rule rollback_not_found) (rule d)
  have f: "rollback_transaction 1 tm_failed_commit = (Inr True, tm_failed_commit)"
    by (simp add: rollback_transaction_def tm_failed_commit_eq)
  from a b c d e f show ?thesis by blast
qed

section \<open>Recovery\<close>

lemma update_checksum_valid: "LogEntry_is_valid (update_checksum e)"
  by (simp add: LogEntry_is_valid_def update_checksum_def Let_def)

lemma staged_entry_invalid: "\<not> LogEntry_is_valid staged_entry"
  by (simp add: LogEntry_is_valid_def update_checksum_def staged_entry_def checksum_step_def
      Let_def)

text \<open>
  Every \<^verbatim>\<open>read\<close> sets \<open>gcount\<close> anew, so after the six reads of the header it is at
  most 4, not the 32 that \<^verbatim>\<open>deserialize\<close> compares it with: on an open stream
  \<^verbatim>\<open>deserialize\<close> throws its header error whatever the file holds, and the replay
  ends at the first record with that exception caught.
\<close>

lemma deserialize_header_error:
  assumes "in_open f"
  shows "fst (deserialize f) = Inl (FileSystemException ''Failed to deserialize LogEntry header'')"
proof -
  obtain b1 f1 where r1: "sread f 8 = (b1, f1)" by (cases "sread f 8")
  obtain b2 f2 where r2: "sread f1 4 = (b2, f2)" by (cases "sread f1 4")
  obtain b3 f3 where r3: "sread f2 4 = (b3, f3)" by (cases "sread f2 4")
  obtain b4 f4 where r4: "sread f3 4 = (b4, f4)" by (cases "sread f3 4")
  obtain b5 f5 where r5: "sread f4 8 = (b5, f5)" by (cases "sread f4 8")
  obtain b6 f6 where r6: "sread f5 4 = (b6, f6)" by (cases "sread f5 4")
  from sread_gcount [OF r6] have "in_failbit f6 \<or> gcount f6 \<noteq> 8 + 4 + 4 + 4 + 8 + 4"
    by auto
  with assms r1 r2 r3 r4 r5 r6 show ?thesis
    by (simp add: deserialize_def)
qed

lemma replay_loop_stops:
  assumes "in_open f" "good f"
  shows "replay_loop f n =
     (n, Some (FileSystemException ''Failed to deserialize LogEntry header''))"
proof (cases "deserialize f")
  case (Pair r f')
  with deserialize_header_error [OF assms(1)]
  have "r = Inl (FileSystemException ''Failed to deserialize LogEntry header'')" by simp
  with Pair assms(2) show ?thesis
    by (subst replay_loop.simps) (simp add: good_def)
qed

lemma replay_log_entries_stops:
  "replay_log_entries (Some bs) =
     (0, Some (FileSystemException ''Failed to deserialize LogEntry header''))"
  by (simp add: replay_log_entries_def ifstream_open_def Let_def replay_loop_stops good_def)

lemma replay_loop_count: "fst (replay_loop f n) = n"
proof (cases "deserialize f")
  case (Pair r f')
  with deserialize_throws [of f] obtain e where "r = Inl e" by (cases r) auto
  with Pair show ?thesis by (subst replay_loop.simps) simp
qed

text \<open>Whether or not the file can be opened, the replay counts no record.\<close>

theorem replay_log_entries_replays_nothing: "fst (replay_log_entries contents) = 0"
  by (simp add: replay_log_entries_def Let_def replay_loop_count)

text \<open>
  C2 fails on the code. The log holds a valid record of transaction 1 followed by a valid
  COMMIT record of transaction 1. The replay reads neither: \<^verbatim>\<open>deserialize\<close> throws on
  the first header, the exception is caught, and the replay ends with no entry replayed.
  \<open>recover\<close> returns with the manager as it was; nothing has been applied.
\<close>

theorem recover_ignores_commit_record:
  "LogEntry_is_valid (update_checksum staged_entry) \<and>
   LogEntry_is_valid (update_checksum commit_marker) \<and>
   transaction_id (update_checksum commit_marker) =
     transaction_id (update_checksum staged_entry) \<and>
   flushed (log_file (tm_over committed_wal)) = committed_wal \<and>
   replay_log_entries (Some committed_wal) =
     (0, Some (FileSystemException ''Failed to deserialize LogEntry header'')) \<and>
   recover (Some committed_wal) (tm_over committed_wal) = (Inr (), tm_over committed_wal)"
proof -
  have "transaction_id (update_checksum commit_marker) =
      transaction_id (update_checksum staged_entry)"
    by (simp add: update_checksum_def staged_entry_def commit_marker_def Let_def)
  moreover have "flushed (log_file (tm_over committed_wal)) = committed_wal"
    by (simp add: tm_over_def)
  moreover have "recover (Some committed_wal) (tm_over committed_wal) =
      (Inr (), tm_over committed_wal)"
    by (simp add: recover_def split: prod.splits)
  ultimately show ?thesis
    using update_checksum_valid replay_log_entries_stops by blast
qed

text \<open>
  C3 fails on the code. The log holds a valid record followed by a record whose checksum
  is wrong. The replay does not get as far as the wrong checksum: it ends at the first
  record, the valid one, with the header error of \<^verbatim>\<open>deserialize\<close>, and
  \<^verbatim>\<open>is_valid\<close> is never asked. The valid record before the damaged one is dropped with
  it, and the log file is left as it was.
\<close>

theorem replay_stops_before_the_damaged_record:
  "LogEntry_is_valid (update_checksum staged_entry) \<and>
   \<not> LogEntry_is_valid staged_entry \<and>
   corrupt_wal = entry_bytes (update_checksum staged_entry) @ entry_bytes staged_entry \<and>
   replay_log_entries (Some corrupt_wal) =
     (0, Some (FileSystemException ''Failed to deserialize LogEntry header'')) \<and>
   flushed (log_file (snd (recover (Some corrupt_wal) (tm_over corrupt_wal)))) = corrupt_wal"
proof -
  have "flushed (log_file (snd (recover (Some corrupt_wal) (tm_over corrupt_wal)))) =
      corrupt_wal"
    by (simp add: recover_def tm_over_def split: prod.splits)
  then show ?thesis
    using update_checksum_valid staged_entry_invalid replay_log_entries_stops corrupt_wal_def
    by blast
qed

section \<open>Range queries\<close>

text \<open>
  C10. For an id at or beyond the capacity (\<^verbatim>\<open>total_blocks_\<close>, respectively
  \<^verbatim>\<open>free_inodes_.size()\<close>) both queries answer \<open>false\<close> and raise nothing: the
  same answer an allocated id gets.
\<close>

theorem out_of_range_is_not_free:
  "(total_blocks bm \<le> b \<longrightarrow> is_block_free bm b = Inr False) \<and>
   (length (free_inodes t) \<le> n \<longrightarrow> is_inode_free t n = Inr False)"
  by (simp add: is_block_free_def is_inode_free_def)

theorem out_of_range_is_not_free_witness:
  "is_block_free (BlockManager_new 10 4096) 10 = Inr False \<and>
   is_block_free (BlockManager_new 10 4096) 0 = Inr False \<and>
   is_inode_free (InodeTable_new 4) 7 = Inr False \<and>
   is_inode_free (InodeTable_new 4) 1 = Inr False"
  using out_of_range_is_not_free [of "BlockManager_new 10 4096" 10 "InodeTable_new 4" 7]
  by (simp add: BlockManager_new_def InodeTable_new_def is_block_free_def is_inode_free_def
      vget_def)

end
